theory Spec2Isabelle
  imports Main "HOL-Library.AList"
begin

section \<open>JavaScript values\<close>

text \<open>
  The values that flow through \<^verbatim>\<open>main.js\<close> and \<^verbatim>\<open>string-renderer.js\<close>: JSON
  results of the Hacker News API, ids and attributes of records, and attribute values of
  a JDOM element.

  Numbers are modelled as integers: ids, page numbers, limits and ranks are integral in
  every path the source exercises; fractional numbers, infinities and \<^verbatim>\<open>NaN\<close> are not
  values of this type, and neither are integers that a JavaScript number cannot hold
  exactly (every integer below \<open>2\<^sup>5\<^sup>3\<close> in magnitude can be held). A plain object is the list of its own enumerable properties in
  enumeration order (keys are distinct); \<open>JMap\<close> is an ES \<^verbatim>\<open>Map\<close>, the list of its
  entries.
\<close>

datatype jsval =
    JUndefined
  | JNull
  | JBool bool
  | JNum int
  | JStr string
  | JArr "jsval list"
  | JObj "(string \<times> jsval) list"
  | JMap "(jsval \<times> jsval) list"

datatype error = TypeError | NetworkFailure

text \<open>Truthiness, as \<^verbatim>\<open>if (x)\<close> and \<^verbatim>\<open>!x\<close> decide it.\<close>

fun truthy :: "jsval \<Rightarrow> bool" where
  "truthy JUndefined = False"
| "truthy JNull = False"
| "truthy (JBool b) = b"
| "truthy (JNum n) = (n \<noteq> 0)"
| "truthy (JStr s) = (s \<noteq> [])"
| "truthy (JArr xs) = True"
| "truthy (JObj ps) = True"
| "truthy (JMap es) = True"

text \<open>Decimal digits of a natural number.\<close>

definition digit :: "nat \<Rightarrow> char" where
  "digit d = ''0123456789'' ! d"

fun digits :: "nat \<Rightarrow> string" where
  "digits n = (if n < 10 then [digit n] else digits (n div 10) @ [digit (n mod 10)])"

declare digits.simps [simp del]

text \<open>
  \<^verbatim>\<open>Number.prototype.toString\<close> on integers. Below \<open>10\<^sup>2\<^sup>1\<close> the digits are written
  in full; from there on the number is written in exponent form, the significant digits
  with a point after the first and \<^verbatim>\<open>e+\<close> followed by the exponent, as in \<^verbatim>\<open>1e+21\<close> and
  \<^verbatim>\<open>1.5e+24\<close>. The significant digits are those of the integer: that is what JavaScript
  prints for every integer below \<open>2\<^sup>5\<^sup>3\<close> and for every integer with at most 15
  significant digits. An integer beyond both is not the value of a number that prints its
  own digits, and is outside the model.
\<close>

definition exponent_form :: "nat \<Rightarrow> string" where
  "exponent_form n =
     (let ds = digits n;
          significant = rev (dropWhile (\<lambda>c. c = CHR ''0'') (rev ds))
      in (case significant of
            [] \<Rightarrow> []
          | d # rest \<Rightarrow> d # (if rest = [] then [] else CHR ''.'' # rest))
         @ ''e+'' @ digits (length ds - 1))"

definition nat_toString :: "nat \<Rightarrow> string" where
  "nat_toString n = (if n < 10 ^ 21 then digits n else exponent_form n)"

definition int_toString :: "int \<Rightarrow> string" where
  "int_toString i = (if i < 0 then CHR ''-'' # nat_toString (nat (- i)) else nat_toString (nat i))"

text \<open>\<^verbatim>\<open>Array.prototype.join\<close> on strings already converted.\<close>

fun join :: "string \<Rightarrow> string list \<Rightarrow> string" where
  "join sep [] = []"
| "join sep [x] = x"
| "join sep (x # y # ys) = x @ sep @ join sep (y # ys)"

text \<open>
  \<^verbatim>\<open>ToString\<close>, as a template literal, string concatenation and \<^verbatim>\<open>join\<close> apply it.
  \<^verbatim>\<open>join\<close> turns \<^verbatim>\<open>undefined\<close> and \<^verbatim>\<open>null\<close> elements into the empty string.
\<close>

fun ToString :: "jsval \<Rightarrow> string" where
  "ToString JUndefined = ''undefined''"
| "ToString JNull = ''null''"
| "ToString (JBool b) = (if b then ''true'' else ''false'')"
| "ToString (JNum n) = int_toString n"
| "ToString (JStr s) = s"
| "ToString (JArr xs) =
     join '','' (map (\<lambda>x. if x = JUndefined \<or> x = JNull then [] else ToString x) xs)"
| "ToString (JObj ps) = ''[object Object]''"
| "ToString (JMap es) = ''[object Map]''"

definition Array_join :: "jsval list \<Rightarrow> string \<Rightarrow> string" where
  "Array_join xs sep =
     join sep (map (\<lambda>x. if x = JUndefined \<or> x = JNull then [] else ToString x) xs)"

text \<open>
  \<^verbatim>\<open>Array.prototype.slice(start, end)\<close> on integer arguments: a negative index counts from
  the end, and both are clamped to the array.
\<close>

definition relative_index :: "nat \<Rightarrow> int \<Rightarrow> nat" where
  "relative_index len i = (if i < 0 then nat (max (int len + i) 0) else min (nat i) len)"

definition slice :: "'a list \<Rightarrow> int \<Rightarrow> int \<Rightarrow> 'a list" where
  "slice xs start end =
     (let k = relative_index (length xs) start;
          final = relative_index (length xs) end
      in take (final - k) (drop k xs))"

section \<open>hnFetch and its cache\<close>

text \<open>
  \<^verbatim>\<open>CACHE\<close> is the module-level \<^verbatim>\<open>Map\<close> from API routes to responses. The browser's
  \<^verbatim>\<open>fetch\<close> is the environment: \<open>issued\<close> logs every remote call in order, a request is
  named by its position in that log, and \<open>pending\<close> holds the requests in flight, each
  with the route its suspended call of \<open>hnFetch\<close> was given.
\<close>

type_synonym path = string

record net =
  CACHE :: "path \<rightharpoonup> jsval"
  issued :: "path list"
  pending :: "(nat \<times> path) list"

definition net_init :: net where
  "net_init = \<lparr>CACHE = Map.empty, issued = [], pending = []\<rparr>"

text \<open>
  What a call hands back: a promise already fulfilled, or one waiting on a request. A
  waiting promise settles when its request does, with a value or an error.
\<close>

datatype 'a promise = Resolved 'a | Awaiting nat

text \<open>
  An \<^verbatim>\<open>async\<close> function runs synchronously up to its first \<^verbatim>\<open>await\<close>. \<open>hnFetch\<close> is
  that part: the test of \<^verbatim>\<open>CACHE.has(apiPath)\<close> and \<^verbatim>\<open>skipCache\<close>, and either the call of
  \<^verbatim>\<open>fetch\<close> or the read of the cached response.
\<close>

definition call_fetch :: "net \<Rightarrow> path \<Rightarrow> net \<times> jsval promise" where
  "call_fetch w apiPath =
     (w\<lparr>issued := issued w @ [apiPath],
        pending := (length (issued w), apiPath) # pending w\<rparr>,
      Awaiting (length (issued w)))"

definition hnFetch :: "net \<Rightarrow> path \<Rightarrow> bool \<Rightarrow> net \<times> jsval promise" where
  "hnFetch w apiPath skipCache =
     (case CACHE w apiPath of
        None \<Rightarrow> call_fetch w apiPath
      | Some cached \<Rightarrow> if skipCache then call_fetch w apiPath else (w, Resolved cached))"

text \<open>
  The rest of the call \<^verbatim>\<open>hnFetch(apiPath)\<close> that waits on request \<open>i\<close>, run when the
  request settles: a response is stored with \<^verbatim>\<open>CACHE.set\<close> and returned; a rejection of
  \<^verbatim>\<open>fetch\<close> or of \<^verbatim>\<open>resp.json()\<close> leaves the \<^verbatim>\<open>await\<close> by throwing, so nothing is stored
  and the caller's promise rejects.
\<close>

definition hnFetch_resume ::
  "net \<Rightarrow> nat \<Rightarrow> path \<Rightarrow> error + jsval \<Rightarrow> net \<times> (error + jsval)" where
  "hnFetch_resume w i apiPath resp =
     (case resp of
        Inr result \<Rightarrow>
          (w\<lparr>CACHE := (CACHE w)(apiPath \<mapsto> result), pending := AList.delete i (pending w)\<rparr>,
           Inr result)
      | Inl e \<Rightarrow> (w\<lparr>pending := AList.delete i (pending w)\<rparr>, Inl e))"

text \<open>The requests for a route that are in flight, latest first.\<close>

definition inflight :: "net \<Rightarrow> path \<Rightarrow> nat list" where
  "inflight w apiPath = map fst (filter (\<lambda>(i, p). p = apiPath) (pending w))"

text \<open>
  A run of the cache: calls of \<open>hnFetch\<close> and settlements of requests, in the order the
  single thread of execution meets them. Each call is observed by the promise it returns,
  each settlement by what the waiting caller receives. Only a request in flight can
  settle; a settlement of any other number is no event and is passed over.
\<close>

datatype event = Call path bool | Settle nat "error + jsval"

datatype observation = Returned "jsval promise" | Delivered "error + jsval"

fun hnFetch_run :: "net \<Rightarrow> event list \<Rightarrow> net \<times> observation list" where
  "hnFetch_run w [] = (w, [])"
| "hnFetch_run w (Call apiPath skipCache # evs) =
     (let (w1, p) = hnFetch w apiPath skipCache;
          (w2, obs) = hnFetch_run w1 evs
      in (w2, Returned p # obs))"
| "hnFetch_run w (Settle i resp # evs) =
     (case map_of (pending w) i of
        None \<Rightarrow> hnFetch_run w evs
      | Some apiPath \<Rightarrow>
          (let (w1, r) = hnFetch_resume w i apiPath resp;
               (w2, obs) = hnFetch_run w1 evs
           in (w2, Delivered r # obs)))"

section \<open>Records and stores\<close>

text \<open>
  \<^verbatim>\<open>Record\<close> and \<^verbatim>\<open>StoreOf\<close> come from the Torus library, which \<^verbatim>\<open>main.js\<close> takes from the
  global \<^verbatim>\<open>Torus\<close>; what \<^verbatim>\<open>main.js\<close> uses of them is modelled from the spec. Their
  subscriber lists and event emission are left out: no function below reads them.
\<close>

text \<open>
  Modelled from the spec: the state of a Torus \<^verbatim>\<open>Record\<close>, an id and an attribute map
  (\<^verbatim>\<open>Record(id, attributes: map)\<close>). The map is the list of its entries in insertion order.
\<close>

record Item =
  id' :: jsval
  data :: "(string \<times> jsval) list"

text \<open>
  Modelled from the spec: the constructor of the Torus \<^verbatim>\<open>Record\<close>,
  \<^verbatim>\<open>construct(id, initialAttrs={})\<close>.
\<close>

definition Record_new :: "jsval \<Rightarrow> (string \<times> jsval) list \<Rightarrow> Item" where
  "Record_new i attrs = \<lparr>id' = i, data = attrs\<rparr>"

text \<open>
  Modelled from the spec: \<^verbatim>\<open>get\<close> of the Torus \<^verbatim>\<open>Record\<close>, the current value of an
  attribute or \<^verbatim>\<open>undefined\<close>.
\<close>

definition Record_get :: "Item \<Rightarrow> string \<Rightarrow> jsval" where
  "Record_get r name = (case map_of (data r) name of None \<Rightarrow> JUndefined | Some v \<Rightarrow> v)"

text \<open>
  Modelled from the spec: the shallow merge that \<^verbatim>\<open>update\<close> of the Torus \<^verbatim>\<open>Record\<close>
  performs. Each key of the source is written to the target: an existing key keeps its
  place and takes the new value, a new key is added at the end.
\<close>

definition Object_assign ::
  "(string \<times> jsval) list \<Rightarrow> (string \<times> jsval) list \<Rightarrow> (string \<times> jsval) list" where
  "Object_assign target source = foldl (\<lambda>t (k, v). AList.update k v t) target source"

text \<open>
  Modelled from the spec: \<^verbatim>\<open>update\<close> of the Torus \<^verbatim>\<open>Record\<close>, which shallow-merges the keys
  of \<open>partial\<close> into the attribute map.
\<close>

definition Record_update :: "Item \<Rightarrow> (string \<times> jsval) list \<Rightarrow> Item" where
  "Record_update r partial = r\<lparr>data := Object_assign (data r) partial\<rparr>"

subsection \<open>Item\<close>

text \<open>The getter \<^verbatim>\<open>loaded\<close>: the \<^verbatim>\<open>type\<close> attribute, used for its truthiness.\<close>

definition loaded :: "Item \<Rightarrow> jsval" where
  "loaded r = Record_get r ''type''"

text \<open>
  \<^verbatim>\<open>Item.fetch\<close> up to the promise it waits on: \<open>None\<close> is the branch that returns
  \<^verbatim>\<open>Promise.resolve()\<close> without a request.
\<close>

definition Item_fetch :: "net \<Rightarrow> Item \<Rightarrow> net \<times> jsval promise option" where
  "Item_fetch w r =
     (if \<not> truthy (loaded r)
      then (let (w', p) = hnFetch w (''/item/'' @ ToString (id' r)) False in (w', Some p))
      else (w, None))"

text \<open>
  The own enumerable properties that \<^verbatim>\<open>const {id, ...attrs} = data\<close> copies: destructuring
  \<^verbatim>\<open>null\<close> or \<^verbatim>\<open>undefined\<close> throws, an array or a string gives its indices, any other
  primitive gives none.
\<close>

definition own_properties :: "jsval \<Rightarrow> error + (string \<times> jsval) list" where
  "own_properties v =
     (case v of
        JUndefined \<Rightarrow> Inl TypeError
      | JNull \<Rightarrow> Inl TypeError
      | JObj ps \<Rightarrow> Inr ps
      | JArr xs \<Rightarrow> Inr (map (\<lambda>i. (digits i, xs ! i)) [0..<length xs])
      | JStr s \<Rightarrow> Inr (map (\<lambda>i. (digits i, JStr [s ! i])) [0..<length s])
      | _ \<Rightarrow> Inr [])"

text \<open>The callback of \<^verbatim>\<open>Item.fetch\<close>, run with the response \<open>data\<close>.\<close>

definition Item_fetch_then :: "Item \<Rightarrow> jsval \<Rightarrow> error + Item" where
  "Item_fetch_then r response =
     (case own_properties response of
        Inl e \<Rightarrow> Inl e
      | Inr ps \<Rightarrow> (let attrs = AList.delete ''id'' ps in Inr (Record_update r attrs)))"

subsection \<open>StoryStore\<close>

text \<open>
  Modelled from the spec: the state of a Torus \<^verbatim>\<open>Store\<close>, an ordered list of records
  (\<^verbatim>\<open>Store(ordered list of Record)\<close>).
\<close>

record Store =
  records :: "Item list"

text \<open>
  Modelled from the spec: \<^verbatim>\<open>reset\<close> of the Torus \<^verbatim>\<open>Store\<close>.
  \<^verbatim>\<open>reset(records=[])\<close> replaces the collection wholesale.
\<close>

definition reset :: "'a Store_scheme \<Rightarrow> Item list \<Rightarrow> 'a Store_scheme" where
  "reset st rs = st\<lparr>records := rs\<rparr>"

record StoryStore = Store +
  slug :: string
  limit :: int
  pageNumber :: int

definition StoryStore_new :: "string \<Rightarrow> int option \<Rightarrow> StoryStore" where
  "StoryStore_new s lim =
     \<lparr>records = [], slug = s, limit = (case lim of None \<Rightarrow> 25 | Some l \<Rightarrow> l), pageNumber = 0\<rparr>"

text \<open>\<^verbatim>\<open>StoryStore.fetch\<close> up to the promise of \<open>hnFetch\<close>.\<close>

definition StoryStore_fetch :: "net \<Rightarrow> StoryStore \<Rightarrow> net \<times> jsval promise" where
  "StoryStore_fetch w st = hnFetch w (''/'' @ slug st) False"

text \<open>
  The callback of \<^verbatim>\<open>StoryStore.fetch\<close>, run with the listing \<open>stories\<close>: the page window, one
  \<^verbatim>\<open>Story\<close> per id with its \<^verbatim>\<open>order\<close>, the reset, and \<^verbatim>\<open>story.fetch()\<close> for each record
  (whose promises are dropped). Only an array has \<^verbatim>\<open>slice\<close> followed by \<^verbatim>\<open>map\<close>; on any other
  response the callback throws before it has changed anything. The third component is the
  error the promise of \<^verbatim>\<open>fetch\<close> rejects with, if any.
\<close>

definition StoryStore_fetch_then ::
  "net \<Rightarrow> StoryStore \<Rightarrow> jsval \<Rightarrow> net \<times> StoryStore \<times> error option" where
  "StoryStore_fetch_then w st stories =
     (case stories of
        JArr ids \<Rightarrow>
          (let window = slice ids (pageNumber st * limit st) ((pageNumber st + 1) * limit st);
               storyRecords =
                 map (\<lambda>(i, idx). Record_new i
                        [(''order'', JNum ((pageNumber st * limit st) + 1 + int idx))])
                     (zip window [0..<length window]);
               st' = reset st storyRecords;
               w' = foldl (\<lambda>w story. fst (Item_fetch w story)) w storyRecords
           in (w', st', None))
      | _ \<Rightarrow> (w, st, Some TypeError))"

text \<open>
  What follows a call of \<^verbatim>\<open>StoryStore.fetch\<close> that returned the promise \<open>p\<close>: when the
  listing came from the cache the promise is already fulfilled and the callback runs with
  the cached response; otherwise the request that was issued settles with \<open>resp\<close>, the
  suspended \<open>hnFetch\<close> resumes, and the callback runs with the response or the promise
  rejects.
\<close>

definition StoryStore_fetch_finish ::
  "net \<Rightarrow> StoryStore \<Rightarrow> jsval promise \<Rightarrow> error + jsval
     \<Rightarrow> net \<times> StoryStore \<times> error option" where
  "StoryStore_fetch_finish w st p resp =
     (case p of
        Resolved stories \<Rightarrow> StoryStore_fetch_then w st stories
      | Awaiting i \<Rightarrow>
          (case hnFetch_resume w i (''/'' @ slug st) resp of
             (w', Inr stories) \<Rightarrow> StoryStore_fetch_then w' st stories
           | (w', Inl e) \<Rightarrow> (w', st, Some e)))"

definition StoryStore_fetch_settled ::
  "net \<Rightarrow> StoryStore \<Rightarrow> error + jsval \<Rightarrow> net \<times> StoryStore \<times> error option" where
  "StoryStore_fetch_settled w st resp =
     (case StoryStore_fetch w st of (w1, p) \<Rightarrow> StoryStore_fetch_finish w1 st p resp)"

text \<open>
  \<^verbatim>\<open>gotoPage\<close> up to the promise of the \<^verbatim>\<open>fetch\<close> it starts (\<open>None\<close> when the page is the
  current one and nothing is done), and \<^verbatim>\<open>gotoPage\<close> followed to the end of the listing
  callback.
\<close>

definition gotoPage ::
  "net \<Rightarrow> StoryStore \<Rightarrow> int \<Rightarrow> net \<times> StoryStore \<times> jsval promise option" where
  "gotoPage w st n =
     (if pageNumber st \<noteq> n
      then (let st1 = st\<lparr>pageNumber := n\<rparr>;
                st2 = reset st1 [];
                (w', p) = StoryStore_fetch w st2
            in (w', st2, Some p))
      else (w, st, None))"

definition gotoPage_settled ::
  "net \<Rightarrow> StoryStore \<Rightarrow> int \<Rightarrow> error + jsval \<Rightarrow> net \<times> StoryStore \<times> error option" where
  "gotoPage_settled w st n resp =
     (case gotoPage w st n of
        (w1, st1, None) \<Rightarrow> (w1, st1, None)
      | (w1, st1, Some p) \<Rightarrow> StoryStore_fetch_finish w1 st1 p resp)"

subsection \<open>CommentStore\<close>

text \<open>
  A numeric field of an object under construction: \<^verbatim>\<open>undefined\<close> before its assignment,
  and \<^verbatim>\<open>NaN\<close> once arithmetic has touched \<^verbatim>\<open>undefined\<close>. The field \<^verbatim>\<open>limit\<close> of a
  \<^verbatim>\<open>CommentStore\<close> is \<open>climit\<close> here, apart from the \<open>limit\<close> of a \<^verbatim>\<open>StoryStore\<close>.
\<close>

datatype jsnum = Undefined | NaN | Num int

record CommentStore = Store +
  hiddenCount :: jsnum
  climit :: jsnum

text \<open>\<^verbatim>\<open>comment_ids.length - this.limit\<close> and \<^verbatim>\<open>Math.max(_, 0)\<close>.\<close>

definition length_minus :: "nat \<Rightarrow> jsnum \<Rightarrow> jsnum" where
  "length_minus len l = (case l of Num n \<Rightarrow> Num (int len - n) | _ \<Rightarrow> NaN)"

definition Math_max0 :: "jsnum \<Rightarrow> jsnum" where
  "Math_max0 x = (case x of Num n \<Rightarrow> Num (max n 0) | _ \<Rightarrow> NaN)"

text \<open>
  \<^verbatim>\<open>slice(0, end)\<close> with \<open>end\<close> a field: \<^verbatim>\<open>undefined\<close> means the end of the array, and
  \<^verbatim>\<open>NaN\<close> converts to index 0.
\<close>

definition slice_to :: "'a list \<Rightarrow> jsnum \<Rightarrow> 'a list" where
  "slice_to xs e =
     (case e of
        Undefined \<Rightarrow> slice xs 0 (int (length xs))
      | NaN \<Rightarrow> slice xs 0 0
      | Num n \<Rightarrow> slice xs 0 n)"

definition resetWith :: "CommentStore \<Rightarrow> jsval list \<Rightarrow> CommentStore" where
  "resetWith st comment_ids =
     (let st1 = st\<lparr>hiddenCount := Math_max0 (length_minus (length comment_ids) (climit st))\<rparr>
      in reset st1 (map (\<lambda>i. Record_new i []) (slice_to comment_ids (climit st))))"

text \<open>
  The constructor, statement by statement. After \<^verbatim>\<open>super()\<close> the store is empty and
  neither \<^verbatim>\<open>hiddenCount\<close> nor \<^verbatim>\<open>limit\<close> is assigned. An omitted argument (\<open>None\<close>,
  \<open>Undefined\<close>) takes its default.
\<close>

definition CommentStore_new :: "jsval list option \<Rightarrow> jsnum \<Rightarrow> CommentStore" where
  "CommentStore_new ids_arg limit_arg =
     (let comment_ids = (case ids_arg of None \<Rightarrow> [] | Some ids \<Rightarrow> ids);
          lim = (if limit_arg = Undefined then Num 25 else limit_arg);
          st0 = \<lparr>records = [], hiddenCount = Undefined, climit = Undefined\<rparr>;
          st1 = resetWith st0 comment_ids;
          st2 = st1\<lparr>hiddenCount := Num 0\<rparr>;
          st3 = st2\<lparr>climit := lim\<rparr>
      in st3)"

definition CommentStore_fetch :: "net \<Rightarrow> CommentStore \<Rightarrow> net" where
  "CommentStore_fetch w st = foldl (\<lambda>w comment. fst (Item_fetch w comment)) w (records st)"

section \<open>The string renderer\<close>

definition HTML_IDL_ATTRIBUTES :: "string list" where
  "HTML_IDL_ATTRIBUTES =
     [''type'', ''value'', ''selected'', ''indeterminate'', ''tabIndex'', ''checked'',
      ''disabled'']"

definition arrayNormalize :: "jsval \<Rightarrow> jsval list" where
  "arrayNormalize d = (case d of JArr xs \<Rightarrow> xs | _ \<Rightarrow> [d])"

text \<open>
  The argument \<open>next\<close> of the renderer: \<^verbatim>\<open>null\<close>, a string, a number, an object with a
  \<^verbatim>\<open>tag\<close> and the optional fields \<^verbatim>\<open>attrs\<close>, \<^verbatim>\<open>events\<close> and \<^verbatim>\<open>children\<close> (\<open>None\<close> when the
  property is absent), or a value of any other \<^verbatim>\<open>typeof\<close> (\<^verbatim>\<open>undefined\<close>, a boolean, a
  function). Strings are lists of code units below 256.
\<close>

datatype jdom =
    VNull
  | VText string
  | VNumber int
  | VOther
  | VElement string "(string \<times> jsval) list option" "(string \<times> jsval) list option"
      "jdom list option"

text \<open>\<open>normalizeJDOM\<close> assigns the missing properties on the object it is given.\<close>

fun normalizeJDOM :: "jdom \<Rightarrow> jdom" where
  "normalizeJDOM (VElement t a e c) =
     VElement t
       (Some (case a of None \<Rightarrow> [] | Some x \<Rightarrow> x))
       (Some (case e of None \<Rightarrow> [] | Some x \<Rightarrow> x))
       (Some (case c of None \<Rightarrow> [] | Some x \<Rightarrow> x))"
| "normalizeJDOM n = n"

text \<open>
  What \<^verbatim>\<open>for (... of v)\<close> and array destructuring iterate: the elements of an array, the
  characters of a string, the entries of a \<^verbatim>\<open>Map\<close>. Any other value, a plain object among
  them, is not iterable and the loop throws a \<^verbatim>\<open>TypeError\<close>.
\<close>

definition iterate :: "jsval \<Rightarrow> error + jsval list" where
  "iterate v =
     (case v of
        JArr xs \<Rightarrow> Inr xs
      | JStr s \<Rightarrow> Inr (map (\<lambda>c. JStr [c]) s)
      | JMap es \<Rightarrow> Inr (map (\<lambda>(k, x). JArr [k, x]) es)
      | _ \<Rightarrow> Inl TypeError)"

definition element_at :: "jsval list \<Rightarrow> nat \<Rightarrow> jsval" where
  "element_at xs i = (if i < length xs then xs ! i else JUndefined)"

text \<open>
  The loop over \<^verbatim>\<open>next.attrs.style\<close>: each entry is destructured as
  \<^verbatim>\<open>[styleKey, styleValue]\<close> and pushed as \<^verbatim>\<open>styleKey + ' ' + styleValue\<close>.
\<close>

fun style_loop :: "string list \<Rightarrow> jsval list \<Rightarrow> error + string list" where
  "style_loop styles [] = Inr styles"
| "style_loop styles (entry # rest) =
     (case iterate entry of
        Inl err \<Rightarrow> Inl err
      | Inr parts \<Rightarrow>
          style_loop
            (styles @ [ToString (element_at parts 0) @ '' '' @ ToString (element_at parts 1)])
            rest)"

text \<open>
  One pass of the loop over \<^verbatim>\<open>next.attrs\<close>, on the arrays \<open>attrs\<close>, \<open>styles\<close> and
  \<open>classes\<close>: the \<^verbatim>\<open>switch\<close> on the attribute name.
\<close>

definition attr_step ::
  "string list \<times> string list \<times> jsval list \<Rightarrow> string \<times> jsval
     \<Rightarrow> error + string list \<times> string list \<times> jsval list" where
  \<open>attr_step acc entry =
     (case acc of (attrs, styles, classes) \<Rightarrow>
      case entry of (attrName, v) \<Rightarrow>
        if attrName = ''class'' then Inr (attrs, styles, arrayNormalize v)
        else if attrName = ''style'' then
          (case iterate v of
             Inl err \<Rightarrow> Inl err
           | Inr entries \<Rightarrow>
               (case style_loop styles entries of
                  Inl err \<Rightarrow> Inl err
                | Inr styles' \<Rightarrow> Inr (attrs, styles', classes)))
        else if attrName \<in> set HTML_IDL_ATTRIBUTES then
          (if v = JBool True then Inr (attrs @ [attrName], styles, classes)
           else Inr (attrs, styles, classes))
        else Inr (attrs @ [attrName @ ''="'' @ ToString v @ ''"''], styles, classes))\<close>

fun attr_loop ::
  "string list \<times> string list \<times> jsval list \<Rightarrow> (string \<times> jsval) list
     \<Rightarrow> error + string list \<times> string list \<times> jsval list" where
  "attr_loop acc [] = Inr acc"
| "attr_loop acc (entry # rest) =
     (case attr_step acc entry of
        Inl err \<Rightarrow> Inl err
      | Inr acc' \<Rightarrow> attr_loop acc' rest)"

text \<open>
  \<^verbatim>\<open>replace(/\s+/g, ' ')\<close>: every maximal run of white space becomes one space. Below 256
  the class \<^verbatim>\<open>\s\<close> is tab, line feed, vertical tab, form feed, carriage return, space and
  the no-break space.
\<close>

definition is_space :: "char \<Rightarrow> bool" where
  "is_space c = (c \<in> set [CHR 0x09, CHR 0x0A, CHR 0x0B, CHR 0x0C, CHR 0x0D, CHR 0x20, CHR 0xA0])"

function collapse_ws :: "string \<Rightarrow> string" where
  "collapse_ws [] = []"
| "collapse_ws (c # cs) =
     (if is_space c then CHR '' '' # collapse_ws (dropWhile is_space cs)
      else c # collapse_ws cs)"
  by pat_completeness auto
termination
  by (relation "measure length") (auto simp: length_dropWhile_le less_Suc_eq_le)

text \<open>The template literal of the element branch, line breaks and indentation included.\<close>

definition element_template ::
  "string \<Rightarrow> string list \<Rightarrow> string list \<Rightarrow> jsval list \<Rightarrow> string list \<Rightarrow> string" where
  \<open>element_template t attrs styles classes children =
     ''<'' @ t @ '' '' @ join '' '' attrs @ [CHR 0x0A] @ replicate 12 (CHR '' '')
     @ ''style="'' @ join '';'' styles @ ''" class="'' @ Array_join classes '' '' @ ''">''
     @ [CHR 0x0A] @ replicate 16 (CHR '' '') @ join [] children
     @ [CHR 0x0A] @ replicate 8 (CHR '' '') @ ''</'' @ t @ ''>''\<close>

text \<open>
  \<open>stringRenderJDOM\<close> returns what the call produces, a string or the error thrown, and the
  argument object as the call leaves it: \<open>normalizeJDOM\<close> writes to it, and the recursive
  calls write to the children it holds. An exception leaves the writes made so far: one
  thrown in the loop over the attributes leaves the normalized node, one thrown by a child
  leaves the normalized node with its children as far as they were rendered.
\<close>

fun stringRenderJDOM :: "jdom \<Rightarrow> (error + string) \<times> jdom"
  and render_children :: "jdom list \<Rightarrow> (error + string list) \<times> jdom list" where
  "stringRenderJDOM VNull = (Inr (collapse_ws ''<!-- -->''), VNull)"
| "stringRenderJDOM (VText s) = (Inr (collapse_ws s), VText s)"
| "stringRenderJDOM (VNumber n) = (Inr (collapse_ws (int_toString n)), VNumber n)"
| "stringRenderJDOM VOther = (Inr (collapse_ws []), VOther)"
| "stringRenderJDOM (VElement t a e c) =
     (let a' = (case a of None \<Rightarrow> [] | Some x \<Rightarrow> x);
          e' = (case e of None \<Rightarrow> [] | Some x \<Rightarrow> x)
      in case attr_loop ([], [], []) a' of
           Inl err \<Rightarrow> (Inl err, normalizeJDOM (VElement t a e c))
         | Inr (attrs, styles, classes) \<Rightarrow>
             (case (case c of None \<Rightarrow> (Inr [], []) | Some cs \<Rightarrow> render_children cs) of
                (Inl err, cs') \<Rightarrow> (Inl err, VElement t (Some a') (Some e') (Some cs'))
              | (Inr children, cs') \<Rightarrow>
                  (Inr (collapse_ws (element_template t attrs styles classes children)),
                   VElement t (Some a') (Some e') (Some cs'))))"
| "render_children [] = (Inr [], [])"
| "render_children (child # rest) =
     (case stringRenderJDOM child of
        (Inl err, child') \<Rightarrow> (Inl err, child' # rest)
      | (Inr s, child') \<Rightarrow>
          (case render_children rest of
             (Inl err, rest') \<Rightarrow> (Inl err, child' # rest')
           | (Inr ss, rest') \<Rightarrow> (Inr (s # ss), child' # rest')))"

text \<open>
  \<open>normalizeJDOM\<close> applied to a node and to every element below it: the state in which a
  completed call leaves its argument.
\<close>

fun normalizeJDOM_deep :: "jdom \<Rightarrow> jdom" where
  "normalizeJDOM_deep (VElement t a e c) =
     VElement t
       (Some (case a of None \<Rightarrow> [] | Some x \<Rightarrow> x))
       (Some (case e of None \<Rightarrow> [] | Some x \<Rightarrow> x))
       (Some (case c of None \<Rightarrow> [] | Some cs \<Rightarrow> map normalizeJDOM_deep cs))"
| "normalizeJDOM_deep n = n"

text \<open>No element of the tree has a \<^verbatim>\<open>style\<close> attribute.\<close>

fun style_free :: "jdom \<Rightarrow> bool" where
  "style_free (VElement t a e c) =
     ((case a of None \<Rightarrow> True | Some ps \<Rightarrow> ''style'' \<notin> fst ` set ps)
      \<and> (case c of None \<Rightarrow> True | Some cs \<Rightarrow> list_all style_free cs))"
| "style_free n = True"

section \<open>Properties of hnFetch\<close>

lemma hnFetch_miss:
  "CACHE w k = None \<Longrightarrow>
     hnFetch w k skipCache =
       (w\<lparr>issued := issued w @ [k], pending := (length (issued w), k) # pending w\<rparr>,
        Awaiting (length (issued w)))"
  by (simp add: hnFetch_def call_fetch_def)

lemma hnFetch_hit:
  "CACHE w k = Some v \<Longrightarrow> hnFetch w k False = (w, Resolved v)"
  by (simp add: hnFetch_def)

lemma hnFetch_run_calls_hit:
  "CACHE w k = Some v \<Longrightarrow>
     hnFetch_run w (replicate n (Call k False)) = (w, replicate n (Returned (Resolved v)))"
  by (induction n) (simp_all add: hnFetch_hit)

lemma hnFetch_CACHE: "CACHE (fst (hnFetch w k skipCache)) = CACHE w"
  by (simp add: hnFetch_def call_fetch_def split: option.splits)

text \<open>
  Calls on a route with no stored response, made with no settlement in between: each of
  them calls \<^verbatim>\<open>fetch\<close>.
\<close>

lemma hnFetch_run_calls_miss:
  "CACHE w k = None \<Longrightarrow>
     issued (fst (hnFetch_run w (replicate n (Call k False)))) = issued w @ replicate n k
     \<and> snd (hnFetch_run w (replicate n (Call k False)))
         = map (\<lambda>i. Returned (Awaiting i)) [length (issued w)..<length (issued w) + n]"
proof (induction n arbitrary: w)
  case 0
  then show ?case by simp
next
  case (Suc n)
  let ?w1 = "w\<lparr>issued := issued w @ [k], pending := (length (issued w), k) # pending w\<rparr>"
  have c1: "CACHE ?w1 k = None" using Suc.prems by simp
  note IH = Suc.IH [OF c1]
  have u: "[length (issued w)..<length (issued w) + Suc n]
             = length (issued w) # [Suc (length (issued w))..<Suc (length (issued w)) + n]"
    by (simp add: upt_conv_Cons)
  show ?case
    using Suc.prems IH
    by (simp only: replicate_Suc hnFetch_run.simps hnFetch_miss split_def Let_def fst_conv
        snd_conv u list.map)
      (simp add: replicate_app_Cons_same)
qed

text \<open>
  C1: the claim asks that callers of \<open>hnFetch\<close> on one route, calling before the first
  response has arrived, share a single request, receive the identical value, and never
  have two requests for the route in flight. The code does not do this. \<^verbatim>\<open>CACHE.set\<close> runs
  only after the \<^verbatim>\<open>await\<close>, so the test of \<^verbatim>\<open>CACHE.has\<close> in a second call made in the
  meantime finds no entry and \<^verbatim>\<open>fetch\<close> is called again. Two calls on \<^verbatim>\<open>/item/1\<close> issue
  two requests, both in flight at once, and each caller receives the response of its own
  request, here \<^verbatim>\<open>'a'\<close> and \<^verbatim>\<open>'b'\<close>. The second settlement also overwrites what the first
  had stored: a call made between the two is answered with \<^verbatim>\<open>'a'\<close>, a call made after
  both with \<^verbatim>\<open>'b'\<close>.
\<close>

theorem hnFetch_concurrent_calls_fetch_twice:
  "hnFetch_run net_init [Call ''/item/1'' False, Call ''/item/1'' False]
     = (net_init\<lparr>issued := [''/item/1'', ''/item/1''],
          pending := [(1, ''/item/1''), (0, ''/item/1'')]\<rparr>,
        [Returned (Awaiting 0), Returned (Awaiting 1)])
   \<and> inflight (fst (hnFetch_run net_init [Call ''/item/1'' False, Call ''/item/1'' False]))
         ''/item/1''
       = [1, 0]
   \<and> snd (hnFetch_run net_init
        [Call ''/item/1'' False, Call ''/item/1'' False,
         Settle 0 (Inr (JStr ''a'')), Settle 1 (Inr (JStr ''b''))])
       = [Returned (Awaiting 0), Returned (Awaiting 1),
          Delivered (Inr (JStr ''a'')), Delivered (Inr (JStr ''b''))]
   \<and> snd (hnFetch_run net_init
        [Call ''/item/1'' False, Call ''/item/1'' False,
         Settle 0 (Inr (JStr ''a'')), Call ''/item/1'' False,
         Settle 1 (Inr (JStr ''b'')), Call ''/item/1'' False])
       = [Returned (Awaiting 0), Returned (Awaiting 1),
          Delivered (Inr (JStr ''a'')), Returned (Resolved (JStr ''a'')),
          Delivered (Inr (JStr ''b'')), Returned (Resolved (JStr ''b''))]"
  by (simp add: hnFetch_def call_fetch_def net_init_def inflight_def hnFetch_resume_def
      AList.delete_eq)

text \<open>
  What the cache does give: when a request for \<open>k\<close> that is in flight resolves with \<open>v\<close>,
  its caller receives \<open>v\<close>, and calls on \<open>k\<close> without \<^verbatim>\<open>skipCache\<close> that follow at once,
  before any other settlement, are each answered with \<open>v\<close> and issue no request.
\<close>

lemma hnFetch_run_settle_then_calls:
  assumes "map_of (pending w) i = Some k"
  shows "hnFetch_run w (Settle i (Inr v) # replicate n (Call k False))
         = (w\<lparr>CACHE := (CACHE w)(k \<mapsto> v), pending := AList.delete i (pending w)\<rparr>,
            Delivered (Inr v) # replicate n (Returned (Resolved v)))"
proof -
  let ?w1 = "w\<lparr>CACHE := (CACHE w)(k \<mapsto> v), pending := AList.delete i (pending w)\<rparr>"
  have r: "hnFetch_resume w i k (Inr v) = (?w1, Inr v)"
    by (simp add: hnFetch_resume_def)
  have c: "CACHE ?w1 k = Some v" by simp
  show ?thesis
    using assms by (simp add: r hnFetch_run_calls_hit [OF c])
qed




text \<open>
  The forced refresh in general: over an entry \<open>old\<close>, the rejected call stores nothing
  and the next call without \<^verbatim>\<open>skipCache\<close> is answered with \<open>old\<close>.
\<close>

lemma hnFetch_forced_rejection_keeps_entry:
  assumes "CACHE w k = Some old"
  shows "snd (hnFetch_run w [Call k True, Settle (length (issued w)) (Inl e), Call k False])
         = [Returned (Awaiting (length (issued w))), Delivered (Inl e),
            Returned (Resolved old)]"
  using assms by (simp add: hnFetch_def call_fetch_def hnFetch_resume_def)

section \<open>Properties of the stories store\<close>

lemma Item_fetch_CACHE: "CACHE (fst (Item_fetch w r)) = CACHE w"
  by (simp add: Item_fetch_def hnFetch_def call_fetch_def split: option.splits prod.splits)

lemma Item_fetch_foldl_CACHE:
  "CACHE (foldl (\<lambda>w story. fst (Item_fetch w story)) w rs) = CACHE w"
  by (induction rs arbitrary: w) (simp_all add: Item_fetch_CACHE)

lemma StoryStore_fetch_then_CACHE:
  "CACHE (fst (StoryStore_fetch_then w st stories)) = CACHE w"
  by (cases stories) (simp_all add: StoryStore_fetch_then_def Let_def Item_fetch_foldl_CACHE)

lemma StoryStore_fetch_then_slug:
  "slug (fst (snd (StoryStore_fetch_then w st stories))) = slug st"
  by (cases stories) (simp_all add: StoryStore_fetch_then_def Let_def reset_def)

lemma topstories_first_fetch:
  "StoryStore_fetch_settled net_init (StoryStore_new ''topstories'' (Some 20))
       (Inr (JArr [JNum 8863]))
     = (\<lparr>CACHE = [''/topstories'' \<mapsto> JArr [JNum 8863]],
         issued = [''/topstories'', ''/item/8863''],
         pending = [(1, ''/item/8863'')]\<rparr>,
        \<lparr>records = [Record_new (JNum 8863) [(''order'', JNum 1)]],
         slug = ''topstories'', limit = 20, pageNumber = 0\<rparr>,
        None)"
  by (simp add: StoryStore_fetch_settled_def StoryStore_fetch_finish_def StoryStore_fetch_def
      StoryStore_new_def hnFetch_def call_fetch_def hnFetch_resume_def net_init_def StoryStore_fetch_then_def
      slice_def relative_index_def reset_def Item_fetch_def loaded_def Record_get_def
      Record_new_def int_toString_def nat_toString_def digits.simps digit_def Let_def AList.delete_eq)

text \<open>
  C9, as stated, fails. \<^verbatim>\<open>StoryStore.fetch\<close> calls \<open>hnFetch\<close> without \<^verbatim>\<open>skipCache\<close>, so
  the listing goes through \<^verbatim>\<open>CACHE\<close> like every other route. The first \<^verbatim>\<open>fetch\<close> of a new
  \<^verbatim>\<open>topstories\<close> store requests \<^verbatim>\<open>/topstories\<close>; once that response is stored, the second
  \<^verbatim>\<open>fetch\<close> is answered from the cache and the log of remote calls does not grow.
\<close>

theorem StoryStore_fetch_cached_counterexample:
  "StoryStore_fetch_settled net_init (StoryStore_new ''topstories'' (Some 20))
       (Inr (JArr [JNum 8863]))
     = (\<lparr>CACHE = [''/topstories'' \<mapsto> JArr [JNum 8863]],
         issued = [''/topstories'', ''/item/8863''],
         pending = [(1, ''/item/8863'')]\<rparr>,
        \<lparr>records = [Record_new (JNum 8863) [(''order'', JNum 1)]],
         slug = ''topstories'', limit = 20, pageNumber = 0\<rparr>,
        None)
   \<and> StoryStore_fetch
       \<lparr>CACHE = [''/topstories'' \<mapsto> JArr [JNum 8863]],
         issued = [''/topstories'', ''/item/8863''],
         pending = [(1, ''/item/8863'')]\<rparr>
       \<lparr>records = [Record_new (JNum 8863) [(''order'', JNum 1)]],
         slug = ''topstories'', limit = 20, pageNumber = 0\<rparr>
     = (\<lparr>CACHE = [''/topstories'' \<mapsto> JArr [JNum 8863]],
         issued = [''/topstories'', ''/item/8863''],
         pending = [(1, ''/item/8863'')]\<rparr>,
        Resolved (JArr [JNum 8863]))"
  by (simp add: topstories_first_fetch) (simp add: StoryStore_fetch_def hnFetch_def)

text \<open>
  C9, amended: \<^verbatim>\<open>StoryStore.fetch\<close> calls the remote listing endpoint exactly when
  \<^verbatim>\<open>CACHE\<close> holds no response for the route of its slug. When one is cached, the call is
  answered with it and issues no request; and after any \<^verbatim>\<open>fetch\<close> whose listing has
  arrived, every later \<^verbatim>\<open>fetch\<close> of that store is answered from the cache.
\<close>

theorem StoryStore_fetch_uses_cache:
  "(CACHE w (''/'' @ slug st) = None \<longrightarrow>
      StoryStore_fetch w st
        = (w\<lparr>issued := issued w @ [''/'' @ slug st],
              pending := (length (issued w), ''/'' @ slug st) # pending w\<rparr>,
           Awaiting (length (issued w))))
   \<and> (\<forall>cached. CACHE w (''/'' @ slug st) = Some cached \<longrightarrow>
        StoryStore_fetch w st = (w, Resolved cached))
   \<and> (\<forall>listing w1 st1 err.
        StoryStore_fetch_settled w st (Inr listing) = (w1, st1, err) \<longrightarrow>
          (\<exists>cached. StoryStore_fetch w1 st1 = (w1, Resolved cached)))"
proof (intro conjI allI impI)
  assume "CACHE w (''/'' @ slug st) = None"
  then show "StoryStore_fetch w st
        = (w\<lparr>issued := issued w @ [''/'' @ slug st],
              pending := (length (issued w), ''/'' @ slug st) # pending w\<rparr>,
           Awaiting (length (issued w)))"
    by (simp add: StoryStore_fetch_def hnFetch_miss)
next
  fix cached
  assume "CACHE w (''/'' @ slug st) = Some cached"
  then show "StoryStore_fetch w st = (w, Resolved cached)"
    by (simp add: StoryStore_fetch_def hnFetch_hit)
next
  fix listing w1 st1 err
  assume run: "StoryStore_fetch_settled w st (Inr listing) = (w1, st1, err)"
  let ?k = "''/'' @ slug st"
  have "slug st1 = slug st \<and> CACHE w1 ?k \<noteq> None"
  proof (cases "CACHE w ?k")
    case None
    let ?w2 = "fst (hnFetch_resume
                      (w\<lparr>issued := issued w @ [?k],
                          pending := (length (issued w), ?k) # pending w\<rparr>)
                      (length (issued w)) ?k (Inr listing))"
    have c: "CACHE ?w2 ?k = Some listing"
      by (simp add: hnFetch_resume_def)
    from run None have eq: "StoryStore_fetch_then ?w2 st listing = (w1, st1, err)"
      by (simp add: StoryStore_fetch_settled_def StoryStore_fetch_finish_def
          StoryStore_fetch_def hnFetch_miss hnFetch_resume_def)
    have "CACHE w1 = CACHE ?w2"
      using StoryStore_fetch_then_CACHE [of ?w2 st listing] eq by simp
    moreover have "slug st1 = slug st"
      using StoryStore_fetch_then_slug [of ?w2 st listing] eq by simp
    ultimately show ?thesis using c by simp
  next
    case (Some cached)
    from run Some have eq: "StoryStore_fetch_then w st cached = (w1, st1, err)"
      by (simp add: StoryStore_fetch_settled_def StoryStore_fetch_finish_def
          StoryStore_fetch_def hnFetch_hit)
    have "CACHE w1 = CACHE w"
      using StoryStore_fetch_then_CACHE [of w st cached] eq by simp
    moreover have "slug st1 = slug st"
      using StoryStore_fetch_then_slug [of w st cached] eq by simp
    ultimately show ?thesis using Some by simp
  qed
  then obtain cached where "CACHE w1 (''/'' @ slug st1) = Some cached" by auto
  then have "StoryStore_fetch w1 st1 = (w1, Resolved cached)"
    by (simp add: StoryStore_fetch_def hnFetch_hit)
  then show "\<exists>cached. StoryStore_fetch w1 st1 = (w1, Resolved cached)" ..
qed

theorem StoryStore_fetch_uses_cache_witness:
  "CACHE net_init (''/'' @ slug (StoryStore_new ''topstories'' (Some 20))) = None
   \<and> StoryStore_fetch net_init (StoryStore_new ''topstories'' (Some 20))
       = (net_init\<lparr>issued := [''/topstories''], pending := [(0, ''/topstories'')]\<rparr>,
          Awaiting 0)
   \<and> CACHE \<lparr>CACHE = [''/topstories'' \<mapsto> JArr [JNum 8863]],
         issued = [''/topstories'', ''/item/8863''],
         pending = [(1, ''/item/8863'')]\<rparr> ''/topstories''
       = Some (JArr [JNum 8863])
   \<and> StoryStore_fetch
       \<lparr>CACHE = [''/topstories'' \<mapsto> JArr [JNum 8863]],
         issued = [''/topstories'', ''/item/8863''],
         pending = [(1, ''/item/8863'')]\<rparr>
       (StoryStore_new ''topstories'' (Some 20))
     = (\<lparr>CACHE = [''/topstories'' \<mapsto> JArr [JNum 8863]],
         issued = [''/topstories'', ''/item/8863''],
         pending = [(1, ''/item/8863'')]\<rparr>,
        Resolved (JArr [JNum 8863]))"
proof -
  let ?st = "StoryStore_new ''topstories'' (Some 20)"
  let ?w1 = "\<lparr>CACHE = [''/topstories'' \<mapsto> JArr [JNum 8863]],
         issued = [''/topstories'', ''/item/8863''],
         pending = [(1, ''/item/8863'')]\<rparr>"
  have h: "CACHE net_init (''/'' @ slug ?st) = None" by (simp add: net_init_def)
  have s: "slug ?st = ''topstories''" by (simp add: StoryStore_new_def)
  have c: "CACHE ?w1 (''/'' @ slug ?st) = Some (JArr [JNum 8863])" by (simp add: s)
  show ?thesis
    using h c StoryStore_fetch_uses_cache [of net_init ?st]
      StoryStore_fetch_uses_cache [of ?w1 ?st]
    by (simp add: s net_init_def)
qed

lemma slice_nonneg:
  "0 \<le> a \<Longrightarrow> a \<le> b \<Longrightarrow> slice xs a b = take (nat b - nat a) (drop (nat a) xs)"
  by (auto simp: slice_def relative_index_def Let_def min_def)

lemma StoryStore_fetch_then_records:
  assumes "0 \<le> pageNumber st" and "0 \<le> limit st"
  shows "snd (StoryStore_fetch_then w st (JArr ids)) =
    (st\<lparr>records :=
        map (\<lambda>k. Record_new (ids ! (nat (pageNumber st * limit st) + k))
                   [(''order'', JNum (pageNumber st * limit st + 1 + int k))])
          [0..<min (nat (limit st)) (length ids - nat (pageNumber st * limit st))]\<rparr>,
     None)"
proof -
  let ?a = "pageNumber st * limit st"
  let ?b = "(pageNumber st + 1) * limit st"
  have a0: "0 \<le> ?a" using assms by simp
  have ab: "?a \<le> ?b" using assms by (simp add: algebra_simps)
  have d: "nat ?b - nat ?a = nat (limit st)"
    using assms by (simp add: algebra_simps nat_add_distrib)
  have sl: "slice ids ?a ?b = take (nat (limit st)) (drop (nat ?a) ids)"
    using slice_nonneg [OF a0 ab, of ids] d by simp
  let ?win = "take (nat (limit st)) (drop (nat ?a) ids)"
  have m: "map (\<lambda>(i, idx). Record_new i [(''order'', JNum (?a + 1 + int idx))])
             (zip ?win [0..<length ?win])
           = map (\<lambda>k. Record_new (ids ! (nat ?a + k)) [(''order'', JNum (?a + 1 + int k))])
               [0..<min (nat (limit st)) (length ids - nat ?a)]"
    by (rule nth_equalityI) (auto simp: nth_drop)
  show ?thesis
    unfolding StoryStore_fetch_then_def
    by (simp only: Let_def jsval.case sl m) (simp add: reset_def)
qed

lemma ids_window:
  "map (\<lambda>k. Record_new (map (\<lambda>i. JNum (int i)) [0..<100] ! (50 + k))
                [(''order'', JNum (50 + 1 + int k))]) [0..<25]
   = map (\<lambda>i. Record_new (JNum (int i)) [(''order'', JNum (int i + 1))]) [50..<75]"
  by (rule nth_equalityI) (simp_all add: algebra_simps del: upt_rec_numeral)

text \<open>
  C3: the listing is the ids \<open>0, \<dots>, 99\<close> (cached, or the response of the request that
  \<^verbatim>\<open>gotoPage\<close> issues) and \<^verbatim>\<open>limit\<close> is 25. After \<^verbatim>\<open>gotoPage(2)\<close> on a store whose page is not
  2, once the listing callback has run, the store holds the records of the ids
  \<open>50, \<dots>, 74\<close> in that order, each built with its \<^verbatim>\<open>order\<close> and nothing else, and the
  orders are \<open>51, \<dots>, 75\<close>: the record at offset \<open>k\<close> has order \<open>2 \<cdot> 25 + k + 1\<close>.
\<close>

theorem gotoPage_2_window:
  assumes "limit st = 25" and "pageNumber st \<noteq> 2"
    and "CACHE w (''/'' @ slug st) = Some (JArr (map (\<lambda>i. JNum (int i)) [0..<100]))
         \<or> (CACHE w (''/'' @ slug st) = None
            \<and> resp = Inr (JArr (map (\<lambda>i. JNum (int i)) [0..<100])))"
  shows "snd (gotoPage_settled w st 2 resp) =
           (st\<lparr>records :=
                 map (\<lambda>i. Record_new (JNum (int i)) [(''order'', JNum (int i + 1))]) [50..<75],
               pageNumber := 2\<rparr>,
            None)
       \<and> map id' (records (fst (snd (gotoPage_settled w st 2 resp))))
           = map (\<lambda>i. JNum (int i)) [50..<75]
       \<and> map (\<lambda>r. Record_get r ''order'') (records (fst (snd (gotoPage_settled w st 2 resp))))
           = map (\<lambda>i. JNum (int i)) [51..<76]"
proof -
  let ?ids = "map (\<lambda>i. JNum (int i)) [0..<100]"
  let ?st2 = "reset (st\<lparr>pageNumber := 2\<rparr>) []"
  let ?recs = "map (\<lambda>i. Record_new (JNum (int i)) [(''order'', JNum (int i + 1))]) [50..<75]"
  have p: "0 \<le> pageNumber ?st2" "0 \<le> limit ?st2"
    using assms(1) by (simp_all add: reset_def)
  have then_eq: "snd (StoryStore_fetch_then w' ?st2 (JArr ?ids))
                   = (st\<lparr>records := ?recs, pageNumber := 2\<rparr>, None)" for w'
    using StoryStore_fetch_then_records [OF p, of w' ?ids] assms(1) ids_window
    by (simp add: reset_def)
  have main: "snd (gotoPage_settled w st 2 resp) = (st\<lparr>records := ?recs, pageNumber := 2\<rparr>, None)"
    using assms(3)
  proof
    assume c: "CACHE w (''/'' @ slug st) = Some (JArr ?ids)"
    then show ?thesis
      using assms(2) then_eq [of w]
      by (simp add: gotoPage_settled_def gotoPage_def Let_def StoryStore_fetch_finish_def
          StoryStore_fetch_def hnFetch_def reset_def)
  next
    assume c: "CACHE w (''/'' @ slug st) = None \<and> resp = Inr (JArr ?ids)"
    then show ?thesis
      using assms(2) then_eq
      by (simp add: gotoPage_settled_def gotoPage_def Let_def StoryStore_fetch_finish_def
          StoryStore_fetch_def hnFetch_def call_fetch_def hnFetch_resume_def reset_def)
  qed
  have ranks: "map (\<lambda>r. Record_get r ''order'') ?recs = map (\<lambda>i. JNum (int i)) [51..<76]"
    by (rule nth_equalityI)
      (simp_all add: Record_get_def Record_new_def algebra_simps del: upt_rec_numeral)
  show ?thesis
    using main ranks by (simp add: Record_new_def comp_def)
qed

theorem gotoPage_2_window_witness:
  "limit (StoryStore_new ''topstories'' None) = 25
   \<and> pageNumber (StoryStore_new ''topstories'' None) \<noteq> 2
   \<and> CACHE net_init (''/'' @ slug (StoryStore_new ''topstories'' None)) = None
   \<and> map id' (records (fst (snd (gotoPage_settled net_init (StoryStore_new ''topstories'' None) 2
          (Inr (JArr (map (\<lambda>i. JNum (int i)) [0..<100])))))))
       = map (\<lambda>i. JNum (int i)) [50..<75]
   \<and> map (\<lambda>r. Record_get r ''order'')
         (records (fst (snd (gotoPage_settled net_init (StoryStore_new ''topstories'' None) 2
          (Inr (JArr (map (\<lambda>i. JNum (int i)) [0..<100])))))))
       = map (\<lambda>i. JNum (int i)) [51..<76]"
proof -
  let ?st = "StoryStore_new ''topstories'' None"
  let ?resp = "Inr (JArr (map (\<lambda>i. JNum (int i)) [0..<100])) :: error + jsval"
  have h1: "limit ?st = 25" by (simp add: StoryStore_new_def)
  have h2: "pageNumber ?st \<noteq> 2" by (simp add: StoryStore_new_def)
  have h3: "CACHE net_init (''/'' @ slug ?st) = None" by (simp add: net_init_def)
  have h4: "CACHE net_init (''/'' @ slug ?st) = Some (JArr (map (\<lambda>i. JNum (int i)) [0..<100]))
         \<or> (CACHE net_init (''/'' @ slug ?st) = None
            \<and> ?resp = Inr (JArr (map (\<lambda>i. JNum (int i)) [0..<100])))"
    using h3 by simp
  show ?thesis
    using h1 h2 h3 gotoPage_2_window [OF h1 h2 h4] by blast
qed

section \<open>Properties of the comment store\<close>

lemma slice_take: "slice xs 0 (int n) = take n xs"
  by (cases "n \<le> length xs") (simp_all add: slice_def relative_index_def Let_def min_def)

text \<open>
  C4: on a store whose \<^verbatim>\<open>limit\<close> is a number \<open>L \<ge> 0\<close>, \<^verbatim>\<open>resetWith(comment_ids)\<close> sets
  \<^verbatim>\<open>hiddenCount\<close> to \<open>max 0 (length comment_ids - L)\<close> and resets the store with one record
  per id of the first \<open>L\<close> ids, in order, built from the id alone; no record is made for
  the ids beyond. With 30 ids and limit 25 the count is 5 and the records are those of
  the first 25 ids.
\<close>

theorem resetWith_visible_limit:
  assumes "climit st = Num (int L)"
  shows "hiddenCount (resetWith st ids) = Num (max 0 (int (length ids) - int L))
       \<and> records (resetWith st ids) = map (\<lambda>i. Record_new i []) (take L ids)
       \<and> climit (resetWith st ids) = Num (int L)"
  using assms
  by (simp add: resetWith_def reset_def Math_max0_def length_minus_def slice_to_def slice_take
      max.commute)

theorem resetWith_visible_limit_witness:
  "climit (CommentStore_new None (Num 25)) = Num (int 25)
   \<and> hiddenCount (resetWith (CommentStore_new None (Num 25)) (map (\<lambda>i. JNum (int i)) [0..<30]))
       = Num 5
   \<and> records (resetWith (CommentStore_new None (Num 25)) (map (\<lambda>i. JNum (int i)) [0..<30]))
       = map (\<lambda>i. Record_new (JNum (int i)) []) [0..<25]"
proof -
  have h: "climit (CommentStore_new None (Num 25)) = Num (int 25)"
    by (simp add: CommentStore_new_def Let_def)
  show ?thesis
    using h resetWith_visible_limit [OF h, of "map (\<lambda>i. JNum (int i)) [0..<30]"]
    by (simp add: take_map comp_def del: upt_rec_numeral)
qed

lemma resetWith_unassigned:
  "resetWith \<lparr>records = rs, hiddenCount = h, climit = Undefined\<rparr> ids
     = \<lparr>records = map (\<lambda>i. Record_new i []) ids, hiddenCount = NaN, climit = Undefined\<rparr>"
  by (simp add: resetWith_def reset_def Math_max0_def length_minus_def slice_to_def slice_take)

text \<open>
  C10: the constructor calls \<^verbatim>\<open>resetWith\<close> while \<^verbatim>\<open>this.limit\<close> is still \<^verbatim>\<open>undefined\<close>, so
  \<^verbatim>\<open>slice(0, undefined)\<close> keeps every id and \<^verbatim>\<open>hiddenCount\<close> becomes \<^verbatim>\<open>NaN\<close>; the two
  assignments that follow set \<^verbatim>\<open>hiddenCount\<close> to 0 and \<^verbatim>\<open>limit\<close> to its argument. A store
  constructed with a list of ids therefore holds a record for every id, whatever the
  limit, and its \<^verbatim>\<open>hiddenCount\<close> is 0.
\<close>

theorem CommentStore_new_untruncated:
  "records (CommentStore_new (Some ids) lim) = map (\<lambda>i. Record_new i []) ids
   \<and> hiddenCount (CommentStore_new (Some ids) lim) = Num 0
   \<and> climit (CommentStore_new (Some ids) lim) = (if lim = Undefined then Num 25 else lim)
   \<and> resetWith \<lparr>records = [], hiddenCount = Undefined, climit = Undefined\<rparr> ids
       = \<lparr>records = map (\<lambda>i. Record_new i []) ids, hiddenCount = NaN, climit = Undefined\<rparr>"
  by (simp add: CommentStore_new_def Let_def resetWith_unassigned)

theorem CommentStore_new_untruncated_witness:
  "length (records (CommentStore_new (Some (map (\<lambda>i. JNum (int i)) [0..<30])) (Num 25))) = 30
   \<and> hiddenCount (CommentStore_new (Some (map (\<lambda>i. JNum (int i)) [0..<30])) (Num 25)) = Num 0
   \<and> climit (CommentStore_new (Some (map (\<lambda>i. JNum (int i)) [0..<30])) (Num 25)) = Num 25"
  using CommentStore_new_untruncated [of "map (\<lambda>i. JNum (int i)) [0..<30]" "Num 25"]
  by (simp del: upt_rec_numeral)

section \<open>Properties of Item\<close>

lemma map_of_Object_assign:
  "map_of (Object_assign t s) = map_of t ++ map_of (rev s)"
  unfolding Object_assign_def
  by (induction s arbitrary: t) (auto simp: update_conv' map_add_upd_left)

lemma loaded_Record_new:
  "loaded (Record_new i attrs) = (case map_of attrs ''type'' of None \<Rightarrow> JUndefined | Some v \<Rightarrow> v)"
  by (simp add: loaded_def Record_get_def Record_new_def)

text \<open>
  C8, as stated, fails in both directions. \<^verbatim>\<open>loaded\<close> is the \<^verbatim>\<open>type\<close> attribute: a record
  into which a detail without a \<^verbatim>\<open>type\<close> has been merged is still not loaded, and a record
  constructed with a \<^verbatim>\<open>type\<close> is loaded although nothing was ever merged.
\<close>

theorem loaded_counterexample:
  "Item_fetch_then (Record_new (JNum 1) []) (JObj [(''id'', JNum 1), (''deleted'', JBool True)])
     = Inr (Record_new (JNum 1) [(''deleted'', JBool True)])
   \<and> \<not> truthy (loaded (Record_new (JNum 1) [(''deleted'', JBool True)]))
   \<and> truthy (loaded (Record_new (JNum 1) [(''type'', JStr ''story'')]))"
  by (simp add: Item_fetch_then_def own_properties_def Record_update_def Record_new_def
      Object_assign_def loaded_def Record_get_def AList.delete_eq)

text \<open>
  C8, amended: \<^verbatim>\<open>loaded\<close> is truthy exactly when the attributes hold a truthy \<^verbatim>\<open>type\<close>.
  After \<^verbatim>\<open>update(partial)\<close> that is the case when \<open>partial\<close> carries a truthy \<^verbatim>\<open>type\<close>, or
  carries none and the record was loaded before; a new record is loaded exactly when its
  initial attributes carry a truthy \<^verbatim>\<open>type\<close>.
\<close>

theorem loaded_iff_truthy_type:
  "truthy (loaded (Record_update r partial))
     = (case map_of (rev partial) ''type'' of Some v \<Rightarrow> truthy v | None \<Rightarrow> truthy (loaded r))
   \<and> truthy (loaded (Record_new i attrs))
     = (case map_of attrs ''type'' of Some v \<Rightarrow> truthy v | None \<Rightarrow> False)"
  by (simp add: loaded_def Record_get_def Record_update_def Record_new_def map_of_Object_assign
      map_add_def split: option.splits)

theorem loaded_iff_truthy_type_witness:
  "truthy (loaded (Record_update (Record_new (JNum 8863) [(''order'', JNum 1)])
                     [(''type'', JStr ''story''), (''title'', JStr ''t'')]))
   \<and> \<not> truthy (loaded (Record_new (JNum 8863) [(''order'', JNum 1)]))"
  using loaded_iff_truthy_type
    [of "Record_new (JNum 8863) [(''order'', JNum 1)]"
        "[(''type'', JStr ''story''), (''title'', JStr ''t'')]" "JNum 8863" "[(''order'', JNum 1)]"]
  by simp

section \<open>Properties of the string renderer\<close>

lemma render_effect:
  "(\<forall>s. fst (stringRenderJDOM n) = Inr s \<longrightarrow> snd (stringRenderJDOM n) = normalizeJDOM_deep n)"
  "(\<forall>ss. fst (render_children cs) = Inr ss \<longrightarrow> snd (render_children cs) = map normalizeJDOM_deep cs)"
proof (induction n and cs rule: stringRenderJDOM_render_children.induct)
  case (5 t a e c)
  let ?a = "case a of None \<Rightarrow> [] | Some x \<Rightarrow> x"
  show ?case
  proof (cases "attr_loop ([], [], []) ?a")
    case (Inl err)
    then show ?thesis by (simp add: Let_def)
  next
    case (Inr acc)
    obtain at sy cl where acc: "acc = (at, sy, cl)" by (cases acc)
    show ?thesis
    proof (cases c)
      case None
      then show ?thesis using Inr acc by (simp add: Let_def)
    next
      case (Some cs)
      note IH = 5 [OF refl refl Inr [unfolded acc] refl refl Some]
      show ?thesis
        using Inr acc Some IH by (auto simp: Let_def split: prod.splits sum.splits)
    qed
  qed
qed (auto split: prod.splits sum.splits)

lemma render_fixed:
  "normalizeJDOM_deep n = n \<longrightarrow> snd (stringRenderJDOM n) = n"
  "map normalizeJDOM_deep cs = cs \<longrightarrow> snd (render_children cs) = cs"
proof (induction n and cs rule: stringRenderJDOM_render_children.induct)
  case (5 t a e c)
  let ?a = "case a of None \<Rightarrow> [] | Some x \<Rightarrow> x"
  show ?case
  proof (cases "attr_loop ([], [], []) ?a")
    case (Inl err)
    then show ?thesis by (auto simp: Let_def split: option.splits)
  next
    case (Inr acc)
    obtain at sy cl where acc: "acc = (at, sy, cl)" by (cases acc)
    show ?thesis
    proof (cases c)
      case None
      then show ?thesis using Inr acc by (simp add: Let_def)
    next
      case (Some cs)
      note IH = 5 [OF refl refl Inr [unfolded acc] refl refl Some]
      show ?thesis
        using Inr acc Some IH by (auto simp: Let_def split: prod.splits sum.splits option.splits)
    qed
  qed
qed (auto split: prod.splits sum.splits)



text \<open>
  C5, as stated, fails. The renderer calls \<open>normalizeJDOM\<close> on its argument, which assigns
  the properties that are missing: after rendering \<^verbatim>\<open>{tag: 'div'}\<close> the object has \<^verbatim>\<open>attrs\<close>,
  \<^verbatim>\<open>events\<close> and \<^verbatim>\<open>children\<close>.
\<close>

theorem stringRenderJDOM_mutates_counterexample:
  "snd (stringRenderJDOM (VElement ''div'' None None None))
     = VElement ''div'' (Some []) (Some []) (Some [])
   \<and> VElement ''div'' (Some []) (Some []) (Some []) \<noteq> VElement ''div'' None None None"
  by simp

text \<open>
  C5, amended: the renderer's only effect on its argument is that of \<open>normalizeJDOM\<close>. After
  a call that returns a string, the argument is the input with \<^verbatim>\<open>attrs\<close>, \<^verbatim>\<open>events\<close> and
  \<^verbatim>\<open>children\<close> added as empty collections to every element, the node or a descendant, that
  lacked them; the tags, the text and every property that was present are unchanged. An
  input that needs no such default, a \<^verbatim>\<open>null\<close>, a string, a number or a tree whose
  elements all carry the three properties, is left as it was, whether the call returns or
  throws.
\<close>

theorem stringRenderJDOM_only_adds_defaults:
  "(\<forall>s. fst (stringRenderJDOM n) = Inr s \<longrightarrow> snd (stringRenderJDOM n) = normalizeJDOM_deep n)
   \<and> (normalizeJDOM_deep n = n \<longrightarrow> snd (stringRenderJDOM n) = n)"
  using render_effect(1) [of n] render_fixed(1) [of n] by blast

theorem stringRenderJDOM_only_adds_defaults_witness:
  "snd (stringRenderJDOM
          (VElement ''ul'' (Some [(''class'', JStr ''list'')]) None
             (Some [VText ''a'', VElement ''li'' None None None])))
     = VElement ''ul'' (Some [(''class'', JStr ''list'')]) (Some [])
         (Some [VText ''a'', VElement ''li'' (Some []) (Some []) (Some [])])
   \<and> snd (stringRenderJDOM (VElement ''li'' (Some []) (Some []) (Some [VText ''a''])))
     = VElement ''li'' (Some []) (Some []) (Some [VText ''a''])"
proof -
  let ?n = "VElement ''ul'' (Some [(''class'', JStr ''list'')]) None
             (Some [VText ''a'', VElement ''li'' None None None])"
  let ?m = "VElement ''li'' (Some []) (Some []) (Some [VText ''a''])"
  have ok: "\<exists>s. fst (stringRenderJDOM ?n) = Inr s"
    by (simp add: attr_step_def)
  have fixed: "normalizeJDOM_deep ?m = ?m" by simp
  show ?thesis
    using ok fixed stringRenderJDOM_only_adds_defaults [of ?n]
      stringRenderJDOM_only_adds_defaults [of ?m]
    by auto
qed




text \<open>
  C7: the claim holds for every tree without a \<^verbatim>\<open>style\<close> attribute, and the renderer breaks
  it on a well-formed element whose \<^verbatim>\<open>style\<close> is a plain object: \<^verbatim>\<open>for (... of
  next.attrs.style)\<close> needs an iterable, so rendering
  \<^verbatim>\<open>{tag: 'div', attrs: {style: {color: 'red'}}}\<close> throws a \<^verbatim>\<open>TypeError\<close>.
\<close>

theorem stringRenderJDOM_style_object_throws:
  "stringRenderJDOM
     (VElement ''div'' (Some [(''style'', JObj [(''color'', JStr ''red'')])]) None None)
   = (Inl TypeError,
      VElement ''div'' (Some [(''style'', JObj [(''color'', JStr ''red'')])]) (Some [])
        (Some []))"
  by (simp add: attr_step_def iterate_def)

text \<open>
  The same style as a \<^verbatim>\<open>Map\<close> renders, and the \<^verbatim>\<open>style\<close> loop is the only place where the
  renderer can throw: a tree with no \<^verbatim>\<open>style\<close> attribute always yields a string.
\<close>

lemma style_map_renders:
  \<open>fst (stringRenderJDOM (VElement ''div'' (Some [(''style'', JMap [(JStr ''color'', JStr ''red'')])]) None None))
   = Inr ''<div style="color red" class=""> </div>''\<close>
  by code_simp

lemma attr_step_style_free:
  "fst entry \<noteq> ''style'' \<Longrightarrow> \<exists>acc'. attr_step (at, sy, cl) entry = Inr acc'"
  by (cases entry) (auto simp: attr_step_def)

lemma attr_loop_style_free:
  "''style'' \<notin> fst ` set ps \<Longrightarrow> \<exists>acc'. attr_loop acc ps = Inr acc'"
proof (induction ps arbitrary: acc)
  case Nil
  show ?case by (rule exI [of _ acc]) simp
next
  case (Cons p ps)
  obtain at sy cl where acc: "acc = (at, sy, cl)" by (metis prod_cases3)
  from Cons.prems obtain acc1 where "attr_step acc p = Inr acc1"
    using attr_step_style_free [of p at sy cl] acc by auto
  with Cons show ?case by simp
qed

lemma render_style_free:
  "style_free n \<longrightarrow> (\<exists>s. fst (stringRenderJDOM n) = Inr s)"
  "list_all style_free cs \<longrightarrow> (\<exists>ss. fst (render_children cs) = Inr ss)"
proof (induction n and cs rule: stringRenderJDOM_render_children.induct)
  case (5 t a e c)
  show ?case
  proof
    assume sf: "style_free (VElement t a e c)"
    let ?a = "case a of None \<Rightarrow> [] | Some x \<Rightarrow> x"
    from sf have "''style'' \<notin> fst ` set ?a" by (auto split: option.splits)
    then obtain at sy cl where al: "attr_loop ([], [], []) ?a = Inr (at, sy, cl)"
      using attr_loop_style_free [of ?a "([], [], [])"] by (metis prod_cases3)
    show "\<exists>s. fst (stringRenderJDOM (VElement t a e c)) = Inr s"
    proof (cases c)
      case None
      then show ?thesis using al by (simp add: Let_def)
    next
      case (Some cs)
      with sf have "list_all style_free cs" by simp
      with 5 [OF refl refl al refl refl Some] obtain ss where "fst (render_children cs) = Inr ss"
        by auto
      then show ?thesis using al Some by (auto simp: Let_def split: prod.splits sum.splits)
    qed
  qed
qed (auto split: prod.splits sum.splits)

end
